theory Spec2Isabelle
  imports Main "HOL-Library.Sublist"
begin

section \<open>Text: characters and the string helpers of Python\<close>

text \<open>
  A Python \<open>str\<close> is modelled as a \<open>string\<close>, one \<open>char\<close> per code point; the model
  covers text whose code points are below 256. The character classes below are those
  of CPython on that range: \<open>str.isspace\<close> (used by \<open>str.strip\<close> and by \<open>\s\<close>), the
  decimal digits of \<open>\d\<close>, and the word characters of \<open>\w\<close> and \<open>\b\<close> (alphanumerics
  and the underscore).
\<close>

definition is_space :: "char \<Rightarrow> bool" where
  "is_space c =
     (let n = (of_char c :: int)
      in (9 \<le> n \<and> n \<le> 13) \<or> (28 \<le> n \<and> n \<le> 32) \<or> n = 133 \<or> n = 160)"

definition is_digit :: "char \<Rightarrow> bool" where
  "is_digit c = (let n = (of_char c :: int) in 48 \<le> n \<and> n \<le> 57)"

definition is_ascii_upper :: "char \<Rightarrow> bool" where
  "is_ascii_upper c = (let n = (of_char c :: int) in 65 \<le> n \<and> n \<le> 90)"

definition is_ascii_lower :: "char \<Rightarrow> bool" where
  "is_ascii_lower c = (let n = (of_char c :: int) in 97 \<le> n \<and> n \<le> 122)"

definition is_word :: "char \<Rightarrow> bool" where
  "is_word c =
     (let n = (of_char c :: int)
      in is_digit c \<or> is_ascii_upper c \<or> is_ascii_lower c \<or> n = 95
         \<or> n = 170 \<or> n = 178 \<or> n = 179 \<or> n = 181 \<or> n = 185 \<or> n = 186
         \<or> (188 \<le> n \<and> n \<le> 190) \<or> (192 \<le> n \<and> n \<le> 214)
         \<or> (216 \<le> n \<and> n \<le> 246) \<or> (248 \<le> n \<and> n \<le> 255))"

text \<open>
  Case folding. Every pattern character of the source is ASCII, and below code point
  256 no non-ASCII character has an ASCII letter as its lower or upper case, so the
  folding of the ASCII letters is all that a match can depend on.
\<close>

definition lower :: "char \<Rightarrow> char" where
  "lower c = (if is_ascii_upper c then char_of (of_char c + (32::int)) else c)"

definition upper :: "char \<Rightarrow> char" where
  "upper c = (if is_ascii_lower c then char_of (of_char c - (32::int)) else c)"

text \<open>\<open>str.strip()\<close>: leading and trailing whitespace removed.\<close>

definition strip :: "string \<Rightarrow> string" where
  "strip s = rev (dropWhile is_space (rev (dropWhile is_space s)))"

text \<open>\<open>sep.join(xs)\<close>.\<close>

fun join :: "string \<Rightarrow> string list \<Rightarrow> string" where
  "join sep [] = []"
| "join sep [x] = x"
| "join sep (x # y # ys) = x @ sep @ join sep (y # ys)"

section \<open>Regular expressions as \<open>re\<close> matches them\<close>

text \<open>
  The patterns of \<open>tool.py\<close> use literals, the classes \<open>\s\<close>, \<open>\d\<close> and \<open>[A-Z]\<close>,
  greedy repetition of a class, the word boundary \<open>\b\<close>, concatenation, alternation
  and the optional group. Capturing parentheses do not change what is matched; the
  replacement templates that refer to groups are modelled on the matched text
  (see \<open>colon_repl\<close>).
\<close>

datatype atom = Lit char | Space | Digit | Range char char

datatype regex =
    Eps
  | Atom atom
  | Rep atom nat "nat option"
  | WordB
  | Seq regex regex
  | Alt regex regex

text \<open>One character against an atom; \<open>ic\<close> is the flag \<open>re.IGNORECASE\<close>.\<close>

fun in_range :: "char \<Rightarrow> char \<Rightarrow> char \<Rightarrow> bool" where
  "in_range lo hi c = ((of_char lo :: int) \<le> of_char c \<and> (of_char c :: int) \<le> of_char hi)"

fun amatch :: "bool \<Rightarrow> atom \<Rightarrow> char \<Rightarrow> bool" where
  "amatch ic (Lit l) c = (if ic then lower c = lower l else c = l)"
| "amatch ic Space c = is_space c"
| "amatch ic Digit c = is_digit c"
| "amatch ic (Range lo hi) c =
     (in_range lo hi c \<or> (ic \<and> (in_range lo hi (lower c) \<or> in_range lo hi (upper c))))"

text \<open>
  A matcher state is the character just before the current position (\<open>None\<close> at the
  start of the text) and the rest of the text. \<open>rmatch\<close> lists the states in which
  a match of the expression can end, in the order in which the backtracking matcher
  of \<open>re\<close> tries them: a greedy repetition longest first, the left alternative before
  the right one. The match that \<open>re\<close> reports is the head of the list.
\<close>

type_synonym mstate = "char option \<times> string"

fun span_states :: "bool \<Rightarrow> atom \<Rightarrow> mstate \<Rightarrow> mstate list" where
  "span_states ic a (p, []) = [(p, [])]"
| "span_states ic a (p, c # cs) =
     (p, c # cs) # (if amatch ic a c then span_states ic a (Some c, cs) else [])"

definition word_before :: "mstate \<Rightarrow> bool" where
  "word_before st = (case fst st of None \<Rightarrow> False | Some c \<Rightarrow> is_word c)"

definition word_after :: "mstate \<Rightarrow> bool" where
  "word_after st = (case snd st of [] \<Rightarrow> False | c # _ \<Rightarrow> is_word c)"

fun rmatch :: "bool \<Rightarrow> regex \<Rightarrow> mstate \<Rightarrow> mstate list" where
  "rmatch ic Eps st = [st]"
| "rmatch ic (Atom a) st =
     (case snd st of [] \<Rightarrow> [] | c # cs \<Rightarrow> if amatch ic a c then [(Some c, cs)] else [])"
| "rmatch ic (Rep a lo hi) st =
     (let xs = span_states ic a st
      in rev (drop lo (case hi of None \<Rightarrow> xs | Some k \<Rightarrow> take (Suc k) xs)))"
| "rmatch ic WordB st = (if word_before st \<noteq> word_after st then [st] else [])"
| "rmatch ic (Seq r1 r2) st = concat (map (rmatch ic r2) (rmatch ic r1 st))"
| "rmatch ic (Alt r1 r2) st = rmatch ic r1 st @ rmatch ic r2 st"

text \<open>Concatenation and alternation of several expressions; a literal string.\<close>

fun seqs :: "regex list \<Rightarrow> regex" where
  "seqs [] = Eps"
| "seqs [r] = r"
| "seqs (r # rs) = Seq r (seqs rs)"

fun alts :: "regex \<Rightarrow> regex list \<Rightarrow> regex" where
  "alts r [] = r"
| "alts r (r' # rs) = Alt r (alts r' rs)"

definition lits :: "string \<Rightarrow> regex" where
  "lits s = seqs (map (\<lambda>c. Atom (Lit c)) s)"

text \<open>
  \<open>re.sub(pattern, repl, text)\<close>: scanning from the left, the first match at the
  leftmost position where one exists is replaced by \<open>repl\<close> of the matched text, and
  the scan goes on behind the match. After an empty match the next match at the same
  position must be non-empty (the flag \<open>must\<close>); where nothing matches, the
  character is copied.
\<close>

definition first_match :: "bool \<Rightarrow> regex \<Rightarrow> bool \<Rightarrow> mstate \<Rightarrow> mstate option" where
  "first_match ic r must st =
     (case filter (\<lambda>st'. \<not> must \<or> snd st' \<noteq> snd st) (rmatch ic r st) of
        [] \<Rightarrow> None
      | st' # _ \<Rightarrow> Some st')"

definition matched :: "mstate \<Rightarrow> mstate \<Rightarrow> string" where
  "matched st st' = take (length (snd st) - length (snd st')) (snd st)"

function re_sub :: "bool \<Rightarrow> regex \<Rightarrow> (string \<Rightarrow> string) \<Rightarrow> bool \<Rightarrow> mstate \<Rightarrow> string" where
  "re_sub ic r repl must st =
     (case first_match ic r must st of
        Some st' \<Rightarrow> repl (matched st st') @ re_sub ic r repl (snd st' = snd st) st'
      | None \<Rightarrow>
          (case snd st of
             [] \<Rightarrow> []
           | c # cs \<Rightarrow> c # re_sub ic r repl False (Some c, cs)))"
  by pat_completeness auto

definition sub :: "bool \<Rightarrow> regex \<Rightarrow> (string \<Rightarrow> string) \<Rightarrow> string \<Rightarrow> string" where
  "sub ic r repl text = re_sub ic r repl False (None, text)"

section \<open>The normalizer \<open>filter_target_section\<close>\<close>

text \<open>The seven patterns of \<open>filter_target_section\<close>, in the order of the source.\<close>

definition pat_contract_for :: regex where
  "pat_contract_for = seqs [lits ''CONTRACT'', Rep Space 0 None, lits ''FOR'']"

definition pat_contract_colon :: regex where
  "pat_contract_colon = Seq (lits ''CONTRACT FOR'') (Atom (Range CHR ''A'' CHR ''Z''))"

definition pat_jn :: regex where
  "pat_jn = seqs [WordB, lits ''JN'', WordB]"

definition pat_date :: regex where
  "pat_date = seqs [WordB, lits ''DATE'', WordB]"

definition pat_noise :: regex where
  "pat_noise =
     alts (lits ''TITLE SHEET'') [lits ''DRAWING'', lits ''SHEET'', lits ''TITLE'', lits ''DESIGN'']"

definition pat_of_digits :: regex where
  "pat_of_digits = seqs [Rep Space 1 None, lits ''of'', Rep Space 1 None, Rep Digit 5 (Some 5)]"

definition pat_structure :: regex where
  "pat_structure =
     seqs [WordB, Atom (Range CHR ''A'' CHR ''Z''), Rep Digit 2 (Some 2),
           Alt (seqs [Atom (Lit CHR ''-''), Rep Digit 1 (Some 5), Alt pat_of_digits Eps])
               pat_of_digits,
           WordB]"

definition pat_whitespace :: regex where
  "pat_whitespace = Rep Space 2 None"

text \<open>
  The template \<open>\1: \2\<close> of the second substitution: group 1 is \<open>(CONTRACT FOR)\<close>,
  the first twelve characters of the match, and group 2 is the one character after
  them.
\<close>

definition colon_repl :: "string \<Rightarrow> string" where
  "colon_repl m = take 12 m @ '': '' @ drop 12 m"

definition fix_contract_for :: "string \<Rightarrow> string" where
  "fix_contract_for text = sub True pat_contract_for (\<lambda>_. ''CONTRACT FOR'') text"

definition insert_colon :: "string \<Rightarrow> string" where
  "insert_colon text = sub True pat_contract_colon colon_repl text"

definition mark_jn :: "string \<Rightarrow> string" where
  "mark_jn text = sub True pat_jn (\<lambda>_. '' Job Number '') text"

definition mark_date :: "string \<Rightarrow> string" where
  "mark_date text = sub True pat_date (\<lambda>_. '' Date '') text"

definition remove_noise :: "string \<Rightarrow> string" where
  "remove_noise text = sub True pat_noise (\<lambda>_. []) text"

definition remove_structure :: "string \<Rightarrow> string" where
  "remove_structure text = sub True pat_structure (\<lambda>_. []) text"

definition collapse_whitespace :: "string \<Rightarrow> string" where
  "collapse_whitespace text = sub False pat_whitespace (\<lambda>_. '' '') text"

definition rules_1_to_5 :: "string \<Rightarrow> string" where
  "rules_1_to_5 text =
     remove_noise (mark_date (mark_jn (insert_colon (fix_contract_for text))))"

definition filter_target_section :: "string \<Rightarrow> string" where
  "filter_target_section text =
     strip (collapse_whitespace (remove_structure (rules_1_to_5 text)))"

section \<open>The extractor \<open>extract_title_text_from_pdf\<close>\<close>

text \<open>
  The extractor calls PyMuPDF, pdf2image, NumPy and PaddleOCR. Each of these calls
  either returns a value or raises; the model takes their outcomes from a record of
  functions and keeps the list of the calls made, so that what raises, what is
  caught and which calls happen are all visible. An exception is its description
  \<open>str(e)\<close>; the exceptions of the libraries are subclasses of \<open>Exception\<close>.
\<close>

type_synonym exn = string

type_synonym region = "int \<times> int \<times> int \<times> int"

text \<open>One element of the OCR result is a dictionary; the key of interest holds the lines.\<close>

type_synonym ocr_res = "string \<rightharpoonup> string list"

datatype call =
    PymupdfOpen | LoadPage | GetText | DocClose
  | ConvertFromPath | ImageCrop | NpArray | OcrPredict
  | Print string

record world =
  pymupdf_open :: "string \<Rightarrow> exn + nat"
  load_page :: "nat \<Rightarrow> nat \<Rightarrow> exn + nat"
  get_text :: "nat \<Rightarrow> region option \<Rightarrow> exn + string"
  doc_close :: "nat \<Rightarrow> exn + unit"
  convert_from_path :: "string \<Rightarrow> exn + nat list"
  image_crop :: "nat \<Rightarrow> region \<Rightarrow> exn + nat"
  np_array :: "nat \<Rightarrow> exn + nat"
  ocr_predict :: "nat \<Rightarrow> exn + ocr_res list"

text \<open>A computation: the calls it made, and the exception raised or the value returned.\<close>

type_synonym 'a io = "call list \<times> (exn + 'a)"

definition ret :: "'a \<Rightarrow> 'a io" where
  "ret x = ([], Inr x)"

definition raise :: "exn \<Rightarrow> 'a io" where
  "raise e = ([], Inl e)"

definition do_call :: "call \<Rightarrow> exn + 'a \<Rightarrow> 'a io" where
  "do_call c outcome = ([c], outcome)"

definition bind :: "'a io \<Rightarrow> ('a \<Rightarrow> 'b io) \<Rightarrow> 'b io" where
  "bind m f =
     (case m of
        (t, Inl e) \<Rightarrow> (t, Inl e)
      | (t, Inr x) \<Rightarrow> (case f x of (t', r) \<Rightarrow> (t @ t', r)))"

definition newline :: string where
  "newline = [CHR 0x0A]"

definition index_error_msg :: exn where
  "index_error_msg = ''list index out of range''"

text \<open>The description of the \<open>UnboundLocalError\<close> of \<open>return full_text\<close> (CPython 3.11 and later).\<close>

definition unbound_local_msg :: exn where
  "unbound_local_msg =
     ''cannot access local variable 'full_text' where it is not associated with a value''"

text \<open>Method 1: the text layer of the first page, clipped to the region when one is given.\<close>

definition direct_text :: "world \<Rightarrow> string \<Rightarrow> region option \<Rightarrow> string io" where
  "direct_text w pdf_path region =
     bind (do_call PymupdfOpen (pymupdf_open w pdf_path)) (\<lambda>doc.
     bind (do_call LoadPage (load_page w doc 0)) (\<lambda>first_page.
     bind (do_call GetText (get_text w first_page region)) (\<lambda>text.
     bind (do_call DocClose (doc_close w doc)) (\<lambda>_.
     ret text))))"

text \<open>Method 2, first half: the first page as an image array, cropped to the region.\<close>

definition rasterize :: "world \<Rightarrow> string \<Rightarrow> region option \<Rightarrow> nat io" where
  "rasterize w pdf_path region =
     bind (do_call ConvertFromPath (convert_from_path w pdf_path)) (\<lambda>images.
     bind (case images of [] \<Rightarrow> raise index_error_msg | img # _ \<Rightarrow> ret img) (\<lambda>img.
     bind (case region of None \<Rightarrow> ret img
           | Some rg \<Rightarrow> do_call ImageCrop (image_crop w img rg)) (\<lambda>img.
     do_call NpArray (np_array w img))))"

text \<open>
  The loop over the OCR result. \<open>full_text\<close> is \<open>None\<close> while the local variable is
  unbound; every element that has the key \<open>rec_texts\<close> assigns it anew.
\<close>

fun ocr_loop :: "string option \<Rightarrow> ocr_res list \<Rightarrow> string option" where
  "ocr_loop full_text [] = full_text"
| "ocr_loop full_text (res # rest) =
     ocr_loop (case res ''rec_texts'' of
                 Some rec_texts \<Rightarrow> Some (join newline rec_texts)
               | None \<Rightarrow> full_text) rest"

definition assemble :: "ocr_res list \<Rightarrow> string io" where
  "assemble ocr_result =
     (if ocr_result \<noteq> [] then
        (case ocr_loop None ocr_result of
           None \<Rightarrow> raise unbound_local_msg
         | Some full_text \<Rightarrow> ret full_text)
      else ret ''OCR processing returned no results.'')"

definition ocr_fallback :: "world \<Rightarrow> string \<Rightarrow> region option \<Rightarrow> string io" where
  "ocr_fallback w pdf_path region =
     bind (do_call (Print ''Direct text extraction failed or insufficient. Falling back to OCR.'')
             (Inr ())) (\<lambda>_.
     bind (rasterize w pdf_path region) (\<lambda>img_array.
     bind (do_call (Print ''Running OCR on title page image...'') (Inr ())) (\<lambda>_.
     bind (do_call OcrPredict (ocr_predict w img_array)) (\<lambda>ocr_result.
     assemble ocr_result))))"

text \<open>The body of the \<open>try\<close> statement.\<close>

definition try_body :: "world \<Rightarrow> string \<Rightarrow> region option \<Rightarrow> string io" where
  "try_body w pdf_path region =
     bind (direct_text w pdf_path region) (\<lambda>text.
       if text \<noteq> [] \<and> 20 < length (strip text) then
         bind (do_call (Print ''Successfully extracted text directly from PDF.'') (Inr ()))
           (\<lambda>_. ret text)
       else ocr_fallback w pdf_path region)"

text \<open>The whole function: \<open>except Exception as e\<close> turns a raise into a returned string.\<close>

definition extract_title_text_from_pdf :: "world \<Rightarrow> string \<Rightarrow> region option \<Rightarrow> string io" where
  "extract_title_text_from_pdf w pdf_path region =
     (case try_body w pdf_path region of
        (t, Inl e) \<Rightarrow> (t, Inr (''OCR extraction failed: '' @ e))
      | (t, Inr text) \<Rightarrow> (t, Inr text))"

definition ocr_calls :: "call set" where
  "ocr_calls = {ConvertFromPath, ImageCrop, NpArray, OcrPredict}"

section \<open>The batch loop of \<open>main.py\<close>\<close>

text \<open>
  The agent and the output parser are outside the program: \<open>agent_invoke\<close> is the
  outcome of \<open>agent_executor.invoke\<close> on a query (a dictionary, or an exception),
  \<open>parser_parse\<close> that of \<open>parser.parse\<close> on the value of the key \<open>output\<close>, and
  \<open>path_join\<close> is \<open>os.path.join\<close>.
\<close>

record BridgeWork =
  job_number :: string
  proposed_work :: "string list"
  date :: string

record services =
  agent_invoke :: "string \<Rightarrow> exn + (string \<rightharpoonup> string)"
  parser_parse :: "string option \<Rightarrow> exn + BridgeWork"
  path_join :: "string \<Rightarrow> string \<Rightarrow> string"

text \<open>A row of the result is the dictionary appended to \<open>results\<close>, keys in source order.\<close>

type_synonym row = "(string \<times> string) list"

definition success_row :: "string \<Rightarrow> BridgeWork \<Rightarrow> row" where
  "success_row filename structured_response =
     [(''file_name'', filename),
      (''job_number'', job_number structured_response),
      (''proposed_work'', join '', '' (proposed_work structured_response)),
      (''date'', join [] (map (\<lambda>c. [c]) (date structured_response)))]"

definition failure_row :: "string \<Rightarrow> exn \<Rightarrow> row" where
  "failure_row filename e =
     [(''file_name'', filename),
      (''job_number'', []),
      (''proposed_work'', []),
      (''date'', ''Error: '' @ e)]"

text \<open>The body of the \<open>try\<close> statement of the loop: the agent, then the parser.\<close>

definition run_agent :: "services \<Rightarrow> string \<Rightarrow> string \<Rightarrow> exn + BridgeWork" where
  "run_agent sv folder_path filename =
     (let file_path = path_join sv folder_path filename;
          query = ''Extract job number, proposed work and date from '' @ file_path
      in case agent_invoke sv query of
           Inl e \<Rightarrow> Inl e
         | Inr raw_response \<Rightarrow> parser_parse sv (raw_response ''output''))"

definition process_file :: "services \<Rightarrow> string \<Rightarrow> string \<Rightarrow> row" where
  "process_file sv folder_path filename =
     (case run_agent sv folder_path filename of
        Inr structured_response \<Rightarrow> success_row filename structured_response
      | Inl e \<Rightarrow> failure_row filename e)"

text \<open>
  \<open>filename.lower().endswith(".pdf")\<close>. Only the ASCII letters have a lower case
  among \<open>p\<close>, \<open>d\<close> and \<open>f\<close>, so the folding of the ASCII letters decides the test.
\<close>

definition is_pdf :: "string \<Rightarrow> bool" where
  "is_pdf filename = suffix ''.pdf'' (map lower filename)"

fun batch_loop :: "services \<Rightarrow> string \<Rightarrow> row list \<Rightarrow> string list \<Rightarrow> row list" where
  "batch_loop sv folder_path results [] = results"
| "batch_loop sv folder_path results (filename # rest) =
     batch_loop sv folder_path
       (if is_pdf filename then results @ [process_file sv folder_path filename] else results)
       rest"

definition batch :: "services \<Rightarrow> string \<Rightarrow> string list \<Rightarrow> row list" where
  "batch sv folder_path listdir = batch_loop sv (folder_path @ [CHR 0x5C]) [] listdir"

section \<open>Predicates and examples for the properties\<close>




text \<open>
  Worlds for the examples: a scanned plan without a text layer whose OCR finds two
  lines, and variants of it (a text layer, an unreadable file, an OCR model that
  raises, an OCR result without lines, an OCR result of two elements).
\<close>

definition scanned_world :: world where
  "scanned_world =
     \<lparr>pymupdf_open = (\<lambda>_. Inr 0),
      load_page = (\<lambda>_ _. Inr 0),
      get_text = (\<lambda>_ _. Inr []),
      doc_close = (\<lambda>_. Inr ()),
      convert_from_path = (\<lambda>_. Inr [0]),
      image_crop = (\<lambda>img _. Inr img),
      np_array = (\<lambda>img. Inr img),
      ocr_predict = (\<lambda>_. Inr [[''rec_texts'' \<mapsto> [''CONTRACT FOR'', ''BRIDGE REPLACEMENT'']]])\<rparr>"

definition text_world :: world where
  "text_world = scanned_world\<lparr>get_text := (\<lambda>_ _. Inr ''CONTRACT FOR: BRIDGE REPLACEMENT'')\<rparr>"

definition unreadable_world :: world where
  "unreadable_world = scanned_world\<lparr>pymupdf_open := (\<lambda>_. Inl ''no such file'')\<rparr>"

definition ocr_down_world :: world where
  "ocr_down_world = scanned_world\<lparr>ocr_predict := (\<lambda>_. Inl ''model not loaded'')\<rparr>"

definition no_rec_texts_world :: world where
  "no_rec_texts_world = scanned_world\<lparr>ocr_predict := (\<lambda>_. Inr [[''input_path'' \<mapsto> []]])\<rparr>"

definition two_results :: "ocr_res list" where
  "two_results = [[''rec_texts'' \<mapsto> [''FIRST'']], [''rec_texts'' \<mapsto> [''SECOND'']]]"

definition two_results_world :: world where
  "two_results_world = scanned_world\<lparr>ocr_predict := (\<lambda>_. Inr two_results)\<rparr>"


text \<open>Services for the example of a batch: the agent fails on the second plan.\<close>

definition demo_services :: services where
  "demo_services =
     \<lparr>agent_invoke = (\<lambda>query. if suffix ''b.PDF'' query then Inl ''rate limit exceeded''
                               else Inr [''output'' \<mapsto> ''{}'']),
      parser_parse = (\<lambda>out. case out of
                               None \<Rightarrow> Inl ''no output''
                             | Some _ \<Rightarrow> Inr \<lparr>job_number = ''201222A'',
                                              proposed_work = [''BRIDGE REPLACEMENT''],
                                              date = ''5/1/2024''\<rparr>),
      path_join = (\<lambda>folder_path filename. folder_path @ filename)\<rparr>"

text \<open>
  No two adjacent whitespace characters; a text that starts with whitespace; the first
  six substitutions together.
\<close>

fun no_ws_run :: "string \<Rightarrow> bool" where
  "no_ws_run (a # b # cs) = (\<not> (is_space a \<and> is_space b) \<and> no_ws_run (b # cs))"
| "no_ws_run cs = True"

definition starts_ws :: "string \<Rightarrow> bool" where
  "starts_ws s = (case s of [] \<Rightarrow> False | c # _ \<Rightarrow> is_space c)"




section \<open>Termination of the substitution loop\<close>

lemma span_states_suffix:
  "st' \<in> set (span_states ic a st) \<Longrightarrow> suffix (snd st') (snd st)"
proof (induction ic a st rule: span_states.induct)
  case (1 ic a p)
  then show ?case by simp
next
  case (2 ic a p c cs)
  then show ?case
    by (auto split: if_splits intro: suffix_ConsI)
qed

lemma rmatch_suffix:
  "st' \<in> set (rmatch ic r st) \<Longrightarrow> suffix (snd st') (snd st)"
proof (induction r arbitrary: st st')
  case Eps
  then show ?case by simp
next
  case (Atom a)
  then show ?case
    by (cases "snd st") (auto split: if_splits intro: suffix_ConsI)
next
  case (Rep a lo hi)
  then have "st' \<in> set (span_states ic a st)"
    by (auto simp: Let_def split: option.splits dest: in_set_dropD in_set_takeD)
  then show ?case by (rule span_states_suffix)
next
  case WordB
  then show ?case by (simp split: if_splits)
next
  case (Seq r1 r2)
  then obtain m where m: "m \<in> set (rmatch ic r1 st)" "st' \<in> set (rmatch ic r2 m)"
    by auto
  have "suffix (snd m) (snd st)"
    using m(1) by (rule Seq.IH(1))
  moreover have "suffix (snd st') (snd m)"
    using m(2) by (rule Seq.IH(2))
  ultimately show ?case
    by (rule suffix_order.order_trans[rotated])
next
  case (Alt r1 r2)
  then have "st' \<in> set (rmatch ic r1 st) \<or> st' \<in> set (rmatch ic r2 st)"
    by simp
  then show ?case
    using Alt.IH by blast
qed

lemma first_match_in_filter:
  assumes "first_match ic r must st = Some st'"
  shows "st' \<in> set (filter (\<lambda>x. \<not> must \<or> snd x \<noteq> snd st) (rmatch ic r st))"
proof (cases "filter (\<lambda>x. \<not> must \<or> snd x \<noteq> snd st) (rmatch ic r st)")
  case Nil
  with assms show ?thesis by (simp add: first_match_def)
next
  case (Cons y ys)
  with assms have "y = st'" by (simp add: first_match_def)
  with Cons show ?thesis by simp
qed

lemma first_match_suffix:
  "first_match ic r must st = Some st' \<Longrightarrow> suffix (snd st') (snd st)"
  using first_match_in_filter[of ic r must st st'] rmatch_suffix[of st' ic r st] by simp

lemma first_match_must:
  "first_match ic r True st = Some st' \<Longrightarrow> snd st' \<noteq> snd st"
  using first_match_in_filter[of ic r True st st'] by simp

lemma first_match_measure:
  assumes "first_match ic r must st = Some st'"
  shows "2 * length (snd st') + (if snd st' = snd st then 0 else 1)
         < 2 * length (snd st) + (if must then 0 else (1::nat))"
proof (cases "snd st' = snd st")
  case True
  have "\<not> must"
  proof
    assume must
    with assms have "first_match ic r True st = Some st'" by simp
    then have "snd st' \<noteq> snd st" by (rule first_match_must)
    with True show False by simp
  qed
  with True show ?thesis by simp
next
  case False
  have "suffix (snd st') (snd st)"
    using assms by (rule first_match_suffix)
  with False have "strict_suffix (snd st') (snd st)"
    by (simp add: strict_suffix_def)
  then have "length (snd st') < length (snd st)"
    by (rule suffix_length_less)
  with False show ?thesis by simp
qed

termination re_sub
  apply (relation "measure (\<lambda>(ic, r, repl, must, st). 2 * length (snd st) + (if must then 0 else 1))")
  subgoal by simp
  subgoal by simp
  subgoal premises prems
    using first_match_measure[OF prems] by simp
  done

declare re_sub.simps [simp del]


section \<open>The normalizer on the examples of the specification\<close>

text \<open>
  Claim C8. On \<open>B01-22222 JN 123456\<close> the normalizer returns a text in which the
  structure number \<open>B01-22222\<close> does not occur and the job number \<open>123456\<close> does.
\<close>

theorem structure_number_deleted_job_number_kept:
  "\<not> sublist ''B01-22222'' (filter_target_section ''B01-22222 JN 123456'')
   \<and> sublist ''123456'' (filter_target_section ''B01-22222 JN 123456'')"
  by code_simp

text \<open>
  Claim C6. The second substitution is compiled with \<open>re.IGNORECASE\<close>, so its class
  \<open>[A-Z]\<close> also matches a lower-case letter: on \<open>CONTRACTFORbridge\<close> the colon is
  inserted although the character after \<open>CONTRACT FOR\<close> is not an upper-case letter.
\<close>

theorem colon_inserted_before_lower_case:
  "filter_target_section ''CONTRACTFORbridge'' = ''CONTRACT FOR: bridge''"
  by code_simp

section \<open>Whitespace in the output of the normalizer\<close>

lemma span_states_length:
  "length (span_states ic a (p, s)) = Suc (length (takeWhile (amatch ic a) s))"
  by (induction s arbitrary: p) auto

lemma span_states_ne: "span_states ic a (p, s) \<noteq> []"
  by (cases s) auto

lemma span_states_last:
  "snd (last (span_states ic a (p, s))) = dropWhile (amatch ic a) s"
  by (induction s arbitrary: p) (auto simp: span_states_ne)

lemma amatch_Space: "amatch ic Space = is_space"
  by (rule ext) simp

lemma span_states_last_Space:
  "snd (last (span_states ic Space (p, s))) = dropWhile is_space s"
  using span_states_last[of ic Space p s] by (simp only: amatch_Space)

lemma span_states_drop_length:
  "st' \<in> set (drop n (span_states ic a st)) \<Longrightarrow> length (snd st') + n \<le> length (snd st)"
proof (induction ic a st arbitrary: n rule: span_states.induct)
  case (1 ic a p)
  then show ?case by (cases n) auto
next
  case (2 ic a p c cs)
  show ?case
  proof (cases n)
    case 0
    with 2 show ?thesis
      by (auto split: if_splits dest: "2.IH"[of 0, simplified])
  next
    case (Suc m)
    with 2 show ?thesis
      by (auto split: if_splits dest: "2.IH"[of m])
  qed
qed


text \<open>The whitespace pattern matches exactly at the start of a run of two or more.\<close>

lemma rmatch_whitespace:
  "rmatch ic pat_whitespace (p, s) = rev (drop 2 (span_states ic Space (p, s)))"
  by (simp add: pat_whitespace_def)

lemma first_match_whitespace:
  "first_match ic pat_whitespace must (p, s) =
     (if 2 \<le> length (takeWhile is_space s)
      then Some (last (span_states ic Space (p, s))) else None)"
proof -
  let ?xs = "span_states ic Space (p, s)"
  have keep: "filter (\<lambda>st'. \<not> must \<or> snd st' \<noteq> snd (p, s)) (rev (drop 2 ?xs)) = rev (drop 2 ?xs)"
  proof (rule filter_True, intro ballI)
    fix st'
    assume "st' \<in> set (rev (drop 2 ?xs))"
    then have "st' \<in> set (drop 2 ?xs)" by simp
    then have "length (snd st') + 2 \<le> length (snd (p, s))"
      by (rule span_states_drop_length)
    then show "\<not> must \<or> snd st' \<noteq> snd (p, s)" by auto
  qed
  have len: "length ?xs = Suc (length (takeWhile is_space s))"
    using span_states_length[of ic Space p s] by (simp only: amatch_Space)
  have fm: "first_match ic pat_whitespace must (p, s) =
      (case rev (drop 2 ?xs) of [] \<Rightarrow> None | st' # _ \<Rightarrow> Some st')"
    unfolding first_match_def rmatch_whitespace keep ..
  show ?thesis
  proof (cases "2 \<le> length (takeWhile is_space s)")
    case True
    with len have ne: "drop 2 ?xs \<noteq> []" and lt: "2 < length ?xs" by simp_all
    have "drop 2 ?xs = butlast (drop 2 ?xs) @ [last (drop 2 ?xs)]"
      by (rule append_butlast_last_id[OF ne, symmetric])
    then have "rev (drop 2 ?xs) = rev (butlast (drop 2 ?xs) @ [last (drop 2 ?xs)])"
      by (rule arg_cong)
    then have "rev (drop 2 ?xs) = last (drop 2 ?xs) # rev (butlast (drop 2 ?xs))"
      by (simp only: rev_append rev.simps append.simps)
    then have eq: "rev (drop 2 ?xs) = last ?xs # rev (butlast (drop 2 ?xs))"
      by (simp only: last_drop[OF lt])
    show ?thesis
      unfolding fm eq using True by simp
  next
    case False
    with len have "drop 2 ?xs = []" by simp
    with False show ?thesis
      by (simp add: fm)
  qed
qed


lemma takeWhile_ge2_iff:
  "2 \<le> length (takeWhile P s) \<longleftrightarrow> (\<exists>a b cs. s = a # b # cs \<and> P a \<and> P b)"
proof (cases s)
  case Nil
  then show ?thesis by simp
next
  case (Cons a t)
  then show ?thesis by (cases t) auto
qed

lemma no_ws_run_Cons:
  "no_ws_run (c # s) \<longleftrightarrow> \<not> (is_space c \<and> starts_ws s) \<and> no_ws_run s"
  by (cases s) (auto simp: starts_ws_def)

lemma starts_ws_dropWhile: "\<not> starts_ws (dropWhile is_space s)"
proof (cases "dropWhile is_space s")
  case Nil
  show ?thesis unfolding starts_ws_def Nil by simp
next
  case (Cons c cs)
  then have "\<not> is_space c"
    using hd_dropWhile[of is_space s] by simp
  with Cons show ?thesis by (simp add: starts_ws_def)
qed

text \<open>The output of the whitespace substitution has no two adjacent whitespace characters.\<close>

lemma collapse_invariant:
  "no_ws_run (re_sub ic pat_whitespace (\<lambda>_. '' '') must st)
   \<and> (starts_ws (re_sub ic pat_whitespace (\<lambda>_. '' '') must st) \<longrightarrow> starts_ws (snd st))"
proof (induction "2 * length (snd st) + (if must then 0 else (1::nat))"
    arbitrary: st must rule: less_induct)
  case less
  obtain p s where st: "st = (p, s)" by (cases st)
  let ?sub = "re_sub ic pat_whitespace (\<lambda>_. '' '')"
  show ?case
  proof (cases "first_match ic pat_whitespace must st")
    case None
    show ?thesis
    proof (cases s)
      case Nil
      have "?sub must st = []"
        using None st Nil by (subst re_sub.simps) simp
      then show ?thesis
        by (simp add: starts_ws_def)
    next
      case (Cons c cs)
      have out: "?sub must st = c # ?sub False (Some c, cs)"
        using None st Cons by (subst re_sub.simps) simp
      have IH: "no_ws_run (?sub False (Some c, cs))
          \<and> (starts_ws (?sub False (Some c, cs)) \<longrightarrow> starts_ws cs)"
        using less[of "(Some c, cs)" False] st Cons by simp
      have "\<not> (is_space c \<and> starts_ws cs)"
      proof
        assume "is_space c \<and> starts_ws cs"
        then have "2 \<le> length (takeWhile is_space s)"
          using Cons by (cases cs) (auto simp: starts_ws_def)
        with None st show False
          by (simp add: first_match_whitespace)
      qed
      with IH show ?thesis
        unfolding out using st Cons by (auto simp: no_ws_run_Cons starts_ws_def)
    qed
  next
    case (Some st')
    have two: "2 \<le> length (takeWhile is_space s)"
      using Some st by (simp add: first_match_whitespace split: if_splits)
    have "st' = last (span_states ic Space (p, s))"
      using Some st by (simp add: first_match_whitespace split: if_splits)
    then have rest: "snd st' = dropWhile is_space s"
      by (simp only: span_states_last_Space)
    have out: "?sub must st = '' '' @ ?sub (snd st' = snd st) st'"
      using Some by (subst re_sub.simps) simp
    have IH: "no_ws_run (?sub (snd st' = snd st) st')
        \<and> (starts_ws (?sub (snd st' = snd st) st') \<longrightarrow> starts_ws (snd st'))"
      using less[of st' "snd st' = snd st"] first_match_measure[OF Some] by simp
    have "\<not> starts_ws (snd st')"
      unfolding rest by (rule starts_ws_dropWhile)
    with IH have "no_ws_run (CHR '' '' # ?sub (snd st' = snd st) st')"
      by (auto simp: no_ws_run_Cons)
    moreover have "starts_ws s"
      using two by (auto simp: takeWhile_ge2_iff starts_ws_def)
    ultimately show ?thesis
      unfolding out using st by simp
  qed
qed


lemma no_ws_run_append_right: "no_ws_run (ps @ s) \<Longrightarrow> no_ws_run s"
proof (induction ps)
  case Nil
  then show ?case by simp
next
  case (Cons a ps)
  then show ?case by (simp add: no_ws_run_Cons)
qed

lemma starts_ws_append: "xs \<noteq> [] \<Longrightarrow> starts_ws (xs @ ys) = starts_ws xs"
  by (cases xs) (auto simp: starts_ws_def)

lemma no_ws_run_append_left: "no_ws_run (s @ ss) \<Longrightarrow> no_ws_run s"
proof (induction s)
  case Nil
  then show ?case by simp
next
  case (Cons a s)
  show ?case
  proof (cases s)
    case Nil
    then show ?thesis by simp
  next
    case (Cons b t)
    with Cons.prems Cons.IH show ?thesis
      by (simp add: starts_ws_def)
  qed
qed

lemma no_ws_run_sublist: "sublist xs ys \<Longrightarrow> no_ws_run ys \<Longrightarrow> no_ws_run xs"
proof -
  assume "sublist xs ys" and ys: "no_ws_run ys"
  then obtain ps ss where "ys = ps @ xs @ ss"
    by (auto simp: sublist_def)
  with ys have "no_ws_run (xs @ ss)"
    using no_ws_run_append_right[of ps "xs @ ss"] by simp
  then show "no_ws_run xs"
    by (rule no_ws_run_append_left)
qed

lemma no_ws_run_no_pair:
  assumes "no_ws_run s" "is_space a" "is_space b"
  shows "\<not> sublist [a, b] s"
proof
  assume "sublist [a, b] s"
  then have "no_ws_run [a, b]"
    using assms(1) by (rule no_ws_run_sublist)
  with assms(2,3) show False by simp
qed

lemma sublist_strip: "sublist (strip s) s"
proof -
  have "sublist (rev (dropWhile is_space (rev (dropWhile is_space s)))) (dropWhile is_space s)"
    by (simp add: sublist_rev_left)
  moreover have "sublist (dropWhile is_space s) s"
    by simp
  ultimately show ?thesis
    unfolding strip_def by (rule sublist_order.order_trans)
qed

lemma strip_no_leading: "takeWhile is_space (strip s) = []"
proof (cases "dropWhile is_space s")
  case Nil
  show ?thesis unfolding strip_def Nil by simp
next
  case (Cons c d)
  then have c: "\<not> is_space c"
    using hd_dropWhile[of is_space s] by simp
  have "\<exists>zs. dropWhile is_space (rev d @ [c]) = zs @ [c]"
    using c by (simp add: dropWhile_append)
  then obtain zs where zs: "dropWhile is_space (rev d @ [c]) = zs @ [c]"
    by blast
  have "strip s = rev (dropWhile is_space (rev d @ [c]))"
    unfolding strip_def Cons by simp
  then have "strip s = c # rev zs"
    unfolding zs by simp
  with c show ?thesis by simp
qed

lemma strip_no_trailing: "takeWhile is_space (rev (strip s)) = []"
proof -
  let ?d = "dropWhile is_space (rev (dropWhile is_space s))"
  have "rev (strip s) = ?d"
    by (simp add: strip_def)
  moreover have "takeWhile is_space ?d = []"
  proof (cases ?d)
    case Nil
    show ?thesis unfolding Nil by simp
  next
    case (Cons c cs)
    then have "\<not> is_space c"
      using hd_dropWhile[of is_space "rev (dropWhile is_space s)"] by simp
    then show ?thesis
      unfolding Cons by simp
  qed
  ultimately show ?thesis by simp
qed


lemma collapse_no_ws_run: "no_ws_run (collapse_whitespace s)"
  unfolding collapse_whitespace_def sub_def using collapse_invariant by blast

lemma filter_no_ws_run: "no_ws_run (filter_target_section x)"
  unfolding filter_target_section_def
  using sublist_strip collapse_no_ws_run by (rule no_ws_run_sublist)

lemma is_space_blank: "is_space CHR '' ''"
  by (simp add: is_space_def)

text \<open>
  Claim C9. For every input the output of the normalizer contains no two consecutive
  space characters and has no leading and no trailing whitespace.
\<close>

theorem no_double_space_and_trimmed:
  "\<not> sublist ''  '' (filter_target_section x)
   \<and> takeWhile is_space (filter_target_section x) = []
   \<and> takeWhile is_space (rev (filter_target_section x)) = []"
proof (intro conjI)
  show "\<not> sublist ''  '' (filter_target_section x)"
    using filter_no_ws_run is_space_blank is_space_blank by (rule no_ws_run_no_pair)
  show "takeWhile is_space (filter_target_section x) = []"
    unfolding filter_target_section_def by (rule strip_no_leading)
  show "takeWhile is_space (rev (filter_target_section x)) = []"
    unfolding filter_target_section_def by (rule strip_no_trailing)
qed







section \<open>Boilerplate tokens in the output of the normalizer\<close>





















section \<open>The extractor\<close>

lemma bind_Inl: "bind (t, Inl e) f = (t, Inl e)"
  by (simp add: bind_def)

lemma bind_Inr: "bind (t, Inr x) f = (t @ fst (f x), snd (f x))"
  by (simp add: bind_def split: prod.splits)

lemma fst_bind_cases:
  "fst (bind m f) = (case snd m of Inl e \<Rightarrow> fst m | Inr x \<Rightarrow> fst m @ fst (f x))"
  by (cases m) (auto simp: bind_def split: sum.splits prod.splits)

lemma snd_bind_cases:
  "snd (bind m f) = (case snd m of Inl e \<Rightarrow> Inl e | Inr x \<Rightarrow> snd (f x))"
  by (cases m) (auto simp: bind_def split: sum.splits prod.splits)

lemma direct_text_calls:
  "set (fst (direct_text w pdf_path region)) \<subseteq> {PymupdfOpen, LoadPage, GetText, DocClose}"
  by (auto simp: direct_text_def fst_bind_cases snd_bind_cases do_call_def ret_def
      split: sum.splits)

lemma rasterize_calls_convert:
  "ConvertFromPath \<in> set (fst (rasterize w pdf_path region))"
  by (auto simp: rasterize_def fst_bind_cases snd_bind_cases do_call_def ret_def
      split: sum.splits)

lemma fallback_calls_convert:
  "ConvertFromPath \<in> set (fst (ocr_fallback w pdf_path region))"
  using rasterize_calls_convert[of w pdf_path region]
  by (auto simp: ocr_fallback_def fst_bind_cases snd_bind_cases do_call_def
      split: sum.splits)

lemma fallback_calls_predict:
  "snd (rasterize w pdf_path region) = Inr img_array \<Longrightarrow>
   OcrPredict \<in> set (fst (ocr_fallback w pdf_path region))"
  by (auto simp: ocr_fallback_def fst_bind_cases snd_bind_cases do_call_def
      split: sum.splits)

lemma extract_fst: "fst (extract_title_text_from_pdf w p r) = fst (try_body w p r)"
  by (auto simp: extract_title_text_from_pdf_def split: prod.splits sum.splits)

lemma extract_snd:
  "snd (extract_title_text_from_pdf w p r) =
     (case snd (try_body w p r) of Inl e \<Rightarrow> Inr (''OCR extraction failed: '' @ e) | Inr text \<Rightarrow> Inr text)"
  by (auto simp: extract_title_text_from_pdf_def split: prod.splits sum.splits)

lemma strip_Nil: "strip [] = []"
  by (simp add: strip_def)

lemmas io_defs = bind_def do_call_def ret_def raise_def
lemmas world_defs = scanned_world_def text_world_def unreadable_world_def ocr_down_world_def
  no_rec_texts_world_def two_results_world_def two_results_def

lemma try_body_open_raises:
  "pymupdf_open w pdf_path = Inl e \<Longrightarrow> snd (try_body w pdf_path region) = Inl e"
  by (simp add: try_body_def direct_text_def snd_bind_cases do_call_def)

lemma try_body_load_page_raises:
  "pymupdf_open w pdf_path = Inr doc \<Longrightarrow> load_page w doc 0 = Inl e \<Longrightarrow>
   snd (try_body w pdf_path region) = Inl e"
  by (simp add: try_body_def direct_text_def snd_bind_cases do_call_def)

lemma try_body_fallback:
  "snd (direct_text w pdf_path region) = Inr text \<Longrightarrow> \<not> 20 < length (strip text) \<Longrightarrow>
   snd (try_body w pdf_path region) = snd (ocr_fallback w pdf_path region)"
  by (simp add: try_body_def snd_bind_cases)

lemma fallback_rasterize_raises:
  "snd (rasterize w pdf_path region) = Inl e \<Longrightarrow> snd (ocr_fallback w pdf_path region) = Inl e"
  by (simp add: ocr_fallback_def snd_bind_cases do_call_def)

lemma fallback_predict:
  "snd (rasterize w pdf_path region) = Inr img_array \<Longrightarrow>
   snd (ocr_fallback w pdf_path region) =
     (case ocr_predict w img_array of Inl e \<Rightarrow> Inl e | Inr ocr_result \<Rightarrow> snd (assemble ocr_result))"
  by (simp add: ocr_fallback_def snd_bind_cases do_call_def)


lemma ocr_loop_no_key:
  "\<forall>res \<in> set rs. res ''rec_texts'' = None \<Longrightarrow> ocr_loop ft rs = ft"
  by (induction rs arbitrary: ft) auto

text \<open>
  Claim C2. When Method 1 has delivered the text of the first page (clipped to the
  region when one is given): if the stripped text is longer than 20 characters, the
  extractor returns that text and makes none of the calls of the OCR path; if it has
  20 characters or fewer (the empty text included), the OCR fallback is entered, that
  is, the page is rasterized, and the OCR model is called whenever the rasterization
  delivers an image array.
\<close>

theorem extractor_threshold:
  assumes "direct_text w pdf_path region = (t, Inr text)"
  shows "(20 < length (strip text) \<longrightarrow>
            extract_title_text_from_pdf w pdf_path region =
              (t @ [Print ''Successfully extracted text directly from PDF.''], Inr text)
            \<and> set (fst (extract_title_text_from_pdf w pdf_path region)) \<inter> ocr_calls = {})
       \<and> (length (strip text) \<le> 20 \<longrightarrow>
            ConvertFromPath \<in> set (fst (extract_title_text_from_pdf w pdf_path region))
            \<and> (\<forall>img_array. snd (rasterize w pdf_path region) = Inr img_array \<longrightarrow>
                 OcrPredict \<in> set (fst (extract_title_text_from_pdf w pdf_path region))))"
proof (intro conjI impI)
  assume long: "20 < length (strip text)"
  then have ne: "text \<noteq> []"
    by (auto simp: strip_Nil)
  with long assms show ex: "extract_title_text_from_pdf w pdf_path region =
      (t @ [Print ''Successfully extracted text directly from PDF.''], Inr text)"
    by (simp add: extract_title_text_from_pdf_def try_body_def bind_Inr do_call_def ret_def)
  have "set t \<subseteq> {PymupdfOpen, LoadPage, GetText, DocClose}"
    using direct_text_calls[of w pdf_path region] assms by simp
  then show "set (fst (extract_title_text_from_pdf w pdf_path region)) \<inter> ocr_calls = {}"
    unfolding ex by (auto simp: ocr_calls_def)
next
  assume short: "length (strip text) \<le> 20"
  with assms have tb: "try_body w pdf_path region =
      (t @ fst (ocr_fallback w pdf_path region), snd (ocr_fallback w pdf_path region))"
    by (simp add: try_body_def bind_Inr)
  show "ConvertFromPath \<in> set (fst (extract_title_text_from_pdf w pdf_path region))"
    using fallback_calls_convert[of w pdf_path region] by (simp add: extract_fst tb)
  show "\<forall>img_array. snd (rasterize w pdf_path region) = Inr img_array \<longrightarrow>
      OcrPredict \<in> set (fst (extract_title_text_from_pdf w pdf_path region))"
    using fallback_calls_predict[of w pdf_path region] by (simp add: extract_fst tb)
qed



theorem extractor_threshold_witness:
  "extract_title_text_from_pdf text_world ''plan.pdf'' None =
     ([PymupdfOpen, LoadPage, GetText, DocClose,
       Print ''Successfully extracted text directly from PDF.''],
      Inr ''CONTRACT FOR: BRIDGE REPLACEMENT'')
   \<and> ConvertFromPath \<in> set (fst (extract_title_text_from_pdf scanned_world ''plan.pdf'' None))
   \<and> OcrPredict \<in> set (fst (extract_title_text_from_pdf scanned_world ''plan.pdf'' None))"
proof -
  have d1: "direct_text text_world ''plan.pdf'' None =
      ([PymupdfOpen, LoadPage, GetText, DocClose], Inr ''CONTRACT FOR: BRIDGE REPLACEMENT'')"
    by (simp add: direct_text_def world_defs io_defs)
  have l1: "20 < length (strip ''CONTRACT FOR: BRIDGE REPLACEMENT'')"
    by code_simp
  have d2: "direct_text scanned_world ''plan.pdf'' None =
      ([PymupdfOpen, LoadPage, GetText, DocClose], Inr [])"
    by (simp add: direct_text_def world_defs io_defs)
  have l2: "length (strip []) \<le> 20"
    by (simp add: strip_def)
  have r2: "snd (rasterize scanned_world ''plan.pdf'' None) = Inr 0"
    by (simp add: rasterize_def world_defs io_defs)
  show ?thesis
    using extractor_threshold[OF d1] l1 extractor_threshold[OF d2] l2 r2 by simp
qed

text \<open>
  Claim C3. The extractor never raises: its outcome is always a returned string. When
  the body of its \<open>try\<close> statement raises, the string is \<open>OCR extraction failed: \<close>
  followed by the description of the exception; this is so in particular when opening
  the PDF, loading the page, the rasterization or the OCR call raises.
\<close>

theorem extractor_never_raises:
  "(\<exists>s. snd (extract_title_text_from_pdf w pdf_path region) = Inr s)
   \<and> (\<forall>e. snd (try_body w pdf_path region) = Inl e \<longrightarrow>
          snd (extract_title_text_from_pdf w pdf_path region) = Inr (''OCR extraction failed: '' @ e))
   \<and> (\<forall>e. pymupdf_open w pdf_path = Inl e \<longrightarrow>
          snd (extract_title_text_from_pdf w pdf_path region) = Inr (''OCR extraction failed: '' @ e))
   \<and> (\<forall>e doc. pymupdf_open w pdf_path = Inr doc \<and> load_page w doc 0 = Inl e \<longrightarrow>
          snd (extract_title_text_from_pdf w pdf_path region) = Inr (''OCR extraction failed: '' @ e))
   \<and> (\<forall>e text. snd (direct_text w pdf_path region) = Inr text \<and> \<not> 20 < length (strip text)
          \<and> snd (rasterize w pdf_path region) = Inl e \<longrightarrow>
          snd (extract_title_text_from_pdf w pdf_path region) = Inr (''OCR extraction failed: '' @ e))
   \<and> (\<forall>e text img_array. snd (direct_text w pdf_path region) = Inr text
          \<and> \<not> 20 < length (strip text)
          \<and> snd (rasterize w pdf_path region) = Inr img_array
          \<and> ocr_predict w img_array = Inl e \<longrightarrow>
          snd (extract_title_text_from_pdf w pdf_path region) = Inr (''OCR extraction failed: '' @ e))"
proof (intro conjI allI impI)
  show "\<exists>s. snd (extract_title_text_from_pdf w pdf_path region) = Inr s"
    by (simp add: extract_snd split: sum.splits)
next
  fix e
  assume "snd (try_body w pdf_path region) = Inl e"
  then show "snd (extract_title_text_from_pdf w pdf_path region) = Inr (''OCR extraction failed: '' @ e)"
    by (simp add: extract_snd)
next
  fix e
  assume "pymupdf_open w pdf_path = Inl e"
  then show "snd (extract_title_text_from_pdf w pdf_path region) = Inr (''OCR extraction failed: '' @ e)"
    by (simp add: extract_snd try_body_open_raises)
next
  fix e doc
  assume "pymupdf_open w pdf_path = Inr doc \<and> load_page w doc 0 = Inl e"
  then show "snd (extract_title_text_from_pdf w pdf_path region) = Inr (''OCR extraction failed: '' @ e)"
    by (simp add: extract_snd try_body_load_page_raises)
next
  fix e content
  assume "snd (direct_text w pdf_path region) = Inr content \<and> \<not> 20 < length (strip content)
          \<and> snd (rasterize w pdf_path region) = Inl e"
  then show "snd (extract_title_text_from_pdf w pdf_path region) = Inr (''OCR extraction failed: '' @ e)"
    by (simp add: extract_snd try_body_fallback fallback_rasterize_raises)
next
  fix e content img_array
  assume "snd (direct_text w pdf_path region) = Inr content \<and> \<not> 20 < length (strip content)
          \<and> snd (rasterize w pdf_path region) = Inr img_array
          \<and> ocr_predict w img_array = Inl e"
  then show "snd (extract_title_text_from_pdf w pdf_path region) = Inr (''OCR extraction failed: '' @ e)"
    by (simp add: extract_snd try_body_fallback fallback_predict)
qed

theorem extractor_never_raises_witness:
  "snd (extract_title_text_from_pdf unreadable_world ''plan.pdf'' None) =
     Inr ''OCR extraction failed: no such file''
   \<and> snd (extract_title_text_from_pdf ocr_down_world ''plan.pdf'' (Some (2550, 1650, 5100, 3300))) =
     Inr ''OCR extraction failed: model not loaded''"
proof -
  let ?rg = "Some (2550, 1650, 5100, 3300)"
  have o: "pymupdf_open unreadable_world ''plan.pdf'' = Inl ''no such file''"
    by (simp add: world_defs)
  have d: "snd (direct_text ocr_down_world ''plan.pdf'' ?rg) = Inr []"
    by (simp add: direct_text_def world_defs io_defs)
  have l: "\<not> 20 < length (strip [])"
    by (simp add: strip_def)
  have r: "snd (rasterize ocr_down_world ''plan.pdf'' ?rg) = Inr 0"
    by (simp add: rasterize_def world_defs io_defs)
  have p: "ocr_predict ocr_down_world 0 = Inl ''model not loaded''"
    by (simp add: world_defs)
  show ?thesis
    using extractor_never_raises[of unreadable_world "''plan.pdf''" None]
      extractor_never_raises[of ocr_down_world "''plan.pdf''" ?rg] o d l r p
    by simp
qed

text \<open>
  Claim C10. When the OCR fallback runs and the model returns a non-empty result none
  of whose elements has the key \<open>rec_texts\<close>, the variable \<open>full_text\<close> is unbound at
  the \<open>return\<close>; the exception is caught and the extractor returns the error string
  that starts with \<open>OCR extraction failed: \<close>.
\<close>

theorem unbound_full_text_is_caught:
  assumes "snd (direct_text w pdf_path region) = Inr text"
    and "\<not> 20 < length (strip text)"
    and "snd (rasterize w pdf_path region) = Inr img_array"
    and "ocr_predict w img_array = Inr ocr_result"
    and "ocr_result \<noteq> []"
    and "\<forall>res \<in> set ocr_result. res ''rec_texts'' = None"
  shows "snd (extract_title_text_from_pdf w pdf_path region) =
           Inr (''OCR extraction failed: '' @ unbound_local_msg)"
proof -
  have "ocr_loop None ocr_result = None"
    using assms(6) by (rule ocr_loop_no_key)
  with assms(5) have "snd (assemble ocr_result) = Inl unbound_local_msg"
    by (simp add: assemble_def raise_def)
  with assms(1-4) show ?thesis
    by (simp add: extract_snd try_body_fallback fallback_predict)
qed

theorem unbound_full_text_is_caught_witness:
  "snd (extract_title_text_from_pdf no_rec_texts_world ''plan.pdf'' None) =
     Inr (''OCR extraction failed: '' @ unbound_local_msg)"
proof -
  have d: "snd (direct_text no_rec_texts_world ''plan.pdf'' None) = Inr []"
    by (simp add: direct_text_def world_defs io_defs)
  have l: "\<not> 20 < length (strip [])"
    by (simp add: strip_def)
  have r: "snd (rasterize no_rec_texts_world ''plan.pdf'' None) = Inr 0"
    by (simp add: rasterize_def world_defs io_defs)
  have p: "ocr_predict no_rec_texts_world 0 = Inr [[''input_path'' \<mapsto> []]]"
    by (simp add: world_defs)
  have k: "\<forall>res \<in> set [[''input_path'' \<mapsto> ([]::string list)]]. res ''rec_texts'' = None"
    by simp
  show ?thesis
    using unbound_full_text_is_caught[OF d l r p _ k] by simp
qed





section \<open>The batch loop\<close>

lemma batch_loop_eq:
  "batch_loop sv folder_path results listdir =
     results @ map (process_file sv folder_path) (filter is_pdf listdir)"
  by (induction listdir arbitrary: results) auto

lemma batch_eq:
  "batch sv folder_path listdir =
     map (process_file sv (folder_path @ [CHR 0x5C])) (filter is_pdf listdir)"
  by (simp add: batch_def batch_loop_eq)

text \<open>
  Claim C1. The result of a batch has exactly one row for each PDF file of the
  directory, in the order of the enumeration; when the agent or the parser raises on
  a file, the row of that file has an empty \<open>job_number\<close>, an empty \<open>proposed_work\<close>
  and the description of the exception (after \<open>Error: \<close>) as its \<open>date\<close>, and the
  other files are processed all the same.
\<close>

theorem batch_isolates_failures:
  "length (batch sv folder_path listdir) = length (filter is_pdf listdir)
   \<and> map (\<lambda>row. map_of row ''file_name'') (batch sv folder_path listdir) =
       map Some (filter is_pdf listdir)
   \<and> (\<forall>i e. i < length (filter is_pdf listdir)
          \<and> run_agent sv (folder_path @ [CHR 0x5C]) (filter is_pdf listdir ! i) = Inl e \<longrightarrow>
          batch sv folder_path listdir ! i =
            [(''file_name'', filter is_pdf listdir ! i), (''job_number'', []),
             (''proposed_work'', []), (''date'', ''Error: '' @ e)])"
proof (intro conjI allI impI)
  show "length (batch sv folder_path listdir) = length (filter is_pdf listdir)"
    by (simp add: batch_eq)
next
  have "map_of (process_file sv fp f) ''file_name'' = Some f" for fp f
    by (simp add: process_file_def success_row_def failure_row_def split: sum.splits)
  then show "map (\<lambda>row. map_of row ''file_name'') (batch sv folder_path listdir) =
      map Some (filter is_pdf listdir)"
    by (simp add: batch_eq)
next
  fix i e
  assume "i < length (filter is_pdf listdir)
          \<and> run_agent sv (folder_path @ [CHR 0x5C]) (filter is_pdf listdir ! i) = Inl e"
  then show "batch sv folder_path listdir ! i =
            [(''file_name'', filter is_pdf listdir ! i), (''job_number'', []),
             (''proposed_work'', []), (''date'', ''Error: '' @ e)]"
    by (simp add: batch_eq process_file_def failure_row_def)
qed

lemma demo_pdfs:
  "filter is_pdf [''a.pdf'', ''notes.txt'', ''b.PDF'', ''c.pdf''] = [''a.pdf'', ''b.PDF'', ''c.pdf'']"
  by code_simp

lemma demo_fail:
  "run_agent demo_services (''plans'' @ [CHR 0x5C]) ([''a.pdf'', ''b.PDF'', ''c.pdf''] ! 1) =
     Inl ''rate limit exceeded''"
  unfolding run_agent_def demo_services_def by code_simp

theorem batch_isolates_failures_witness:
  "length (batch demo_services ''plans'' [''a.pdf'', ''notes.txt'', ''b.PDF'', ''c.pdf'']) = 3
   \<and> batch demo_services ''plans'' [''a.pdf'', ''notes.txt'', ''b.PDF'', ''c.pdf''] ! 1 =
       [(''file_name'', ''b.PDF''), (''job_number'', []),
        (''proposed_work'', []), (''date'', ''Error: rate limit exceeded'')]"
proof -
  note inst = batch_isolates_failures[of demo_services "''plans''"
      "[''a.pdf'', ''notes.txt'', ''b.PDF'', ''c.pdf'']", unfolded demo_pdfs]
  have len: "length (batch demo_services ''plans'' [''a.pdf'', ''notes.txt'', ''b.PDF'', ''c.pdf'']) =
      length [''a.pdf'', ''b.PDF'', ''c.pdf'']"
    using inst by (rule conjunct1)
  have "1 < length [''a.pdf'', ''b.PDF'', ''c.pdf''] \<and>
      run_agent demo_services (''plans'' @ [CHR 0x5C]) ([''a.pdf'', ''b.PDF'', ''c.pdf''] ! 1) =
        Inl ''rate limit exceeded''"
    using demo_fail by simp
  with inst have "batch demo_services ''plans'' [''a.pdf'', ''notes.txt'', ''b.PDF'', ''c.pdf''] ! 1 =
      [(''file_name'', [''a.pdf'', ''b.PDF'', ''c.pdf''] ! 1), (''job_number'', []),
       (''proposed_work'', []), (''date'', ''Error: '' @ ''rate limit exceeded'')]"
    by blast
  with len show ?thesis by simp
qed


end
